theory Spec2Isabelle
  imports Complex_Main "HOL-Library.Word"
begin

section \<open>JavaScript numbers and strings used by the generator\<close>

text \<open>
  The generator (\<^verbatim>\<open>src/qr-generator.js\<close>, class \<^verbatim>\<open>AdvancedQRGenerator\<close>) only ever
  computes with integers between a few thousand below and above zero, so a JavaScript
  number is an \<^typ>\<open>int\<close> here. The 32-bit shift \<^verbatim>\<open>a << k\<close> is written out with its
  wrap-around: the operand is taken modulo \<open>2^32\<close> and read as a signed value.
\<close>

definition ToInt32 :: "int \<Rightarrow> int" where
  "ToInt32 n = (let m = n mod 2 ^ 32 in if 2 ^ 31 \<le> m then m - 2 ^ 32 else m)"

definition js_shl :: "int \<Rightarrow> nat \<Rightarrow> int" where
  "js_shl a k = ToInt32 (a * 2 ^ (k mod 32))"

text \<open>\<^verbatim>\<open>Number.prototype.toString(16)\<close> on an integer: lower-case digits, a minus sign
  for a negative number.\<close>

definition hex_digit :: "nat \<Rightarrow> char" where
  "hex_digit d = ''0123456789abcdef'' ! d"

fun hex_digits :: "nat \<Rightarrow> string" where
  "hex_digits n =
     (if n < 16 then [hex_digit n] else hex_digits (n div 16) @ [hex_digit (n mod 16)])"

declare hex_digits.simps [simp del]

definition toString16 :: "int \<Rightarrow> string" where
  "toString16 n = (if n < 0 then CHR ''-'' # hex_digits (nat (- n)) else hex_digits (nat n))"

text \<open>The value of one hexadecimal digit, as \<^verbatim>\<open>parseInt(s, 16)\<close> reads it, and
  \<^verbatim>\<open>parseInt\<close> on a string made of hexadecimal digits only (the only strings the
  capture groups of \<^verbatim>\<open>hexToRgb\<close> can hold).\<close>

definition hex_digit_val :: "char \<Rightarrow> int" where
  "hex_digit_val c =
     (let n = (of_char c :: int) in
      if 48 \<le> n \<and> n \<le> 57 then n - 48
      else if 97 \<le> n \<and> n \<le> 102 then n - 87
      else if 65 \<le> n \<and> n \<le> 70 then n - 55
      else 0)"

definition parseInt16 :: "string \<Rightarrow> int" where
  "parseInt16 s = foldl (\<lambda>acc c. acc * 16 + hex_digit_val c) 0 s"

text \<open>\<^verbatim>\<open>a || b\<close> on an optional string and on an optional number, and the truth value
  of an optional string: an absent value, the empty string and \<open>0\<close> are falsy.\<close>

definition or_str :: "string option \<Rightarrow> string \<Rightarrow> string" where
  "or_str a d = (case a of None \<Rightarrow> d | Some s \<Rightarrow> if s = [] then d else s)"

definition truthy_str :: "string option \<Rightarrow> bool" where
  "truthy_str a = (case a of None \<Rightarrow> False | Some s \<Rightarrow> s \<noteq> [])"

definition or_num :: "int option \<Rightarrow> int \<Rightarrow> int" where
  "or_num a d = (case a of None \<Rightarrow> d | Some n \<Rightarrow> if n = 0 then d else n)"

section \<open>ColorMath: \<^verbatim>\<open>hexToRgb\<close>, \<^verbatim>\<open>rgbToHex\<close>, \<^verbatim>\<open>invertColor\<close>\<close>

type_synonym rgb = "int \<times> int \<times> int"

text \<open>
  The regular expression \<^verbatim>\<open>/^#?([a-f\d]{2})([a-f\d]{2})([a-f\d]{2})$/i\<close>.
  \<open>regex_class\<close> is the character class \<^verbatim>\<open>[a-f\d]\<close>: the range \<^verbatim>\<open>a-f\<close>, its
  upper-case letters under the flag \<^verbatim>\<open>i\<close>, and the digits \<^verbatim>\<open>\d\<close>;
  \<open>regex_group\<close> matches one capture group at the head of the input and returns the
  capture with the rest of the input; \<open>regex_groups\<close> matches the three groups and the
  final \<^verbatim>\<open>$\<close>; \<open>regex_exec\<close> tries the optional \<^verbatim>\<open>#\<close> first (the quantifier is
  greedy) and backtracks to the empty match of \<^verbatim>\<open>#?\<close> when that fails.
\<close>

definition regex_class :: "char \<Rightarrow> bool" where
  "regex_class c =
     (c \<in> set ''abcdef'' \<or> c \<in> set ''ABCDEF'' \<or> c \<in> set ''0123456789'')"

fun regex_group :: "string \<Rightarrow> (string \<times> string) option" where
  "regex_group (a # b # rest) =
     (if regex_class a \<and> regex_class b then Some ([a, b], rest) else None)"
| "regex_group _ = None"

definition regex_groups :: "string \<Rightarrow> (string \<times> string \<times> string) option" where
  "regex_groups s =
     (case regex_group s of
        None \<Rightarrow> None
      | Some (g1, s1) \<Rightarrow>
         (case regex_group s1 of
            None \<Rightarrow> None
          | Some (g2, s2) \<Rightarrow>
             (case regex_group s2 of
                None \<Rightarrow> None
              | Some (g3, s3) \<Rightarrow> if s3 = [] then Some (g1, g2, g3) else None)))"

definition regex_exec :: "string \<Rightarrow> (string \<times> string \<times> string) option" where
  "regex_exec hex =
     (case hex of
        [] \<Rightarrow> regex_groups hex
      | c # rest \<Rightarrow>
         if c = CHR ''#'' then
           (case regex_groups rest of Some g \<Rightarrow> Some g | None \<Rightarrow> regex_groups hex)
         else regex_groups hex)"

definition hexToRgb :: "string \<Rightarrow> rgb" where
  "hexToRgb hex =
     (case regex_exec hex of
        Some (g1, g2, g3) \<Rightarrow> (parseInt16 g1, parseInt16 g2, parseInt16 g3)
      | None \<Rightarrow> (0, 0, 0))"

definition rgbToHex :: "int \<Rightarrow> int \<Rightarrow> int \<Rightarrow> string" where
  "rgbToHex r g b =
     CHR ''#'' # drop 1 (toString16 (js_shl 1 24 + js_shl r 16 + js_shl g 8 + b))"

definition invertColor :: "string \<Rightarrow> string" where
  "invertColor hex =
     (case hexToRgb hex of (r, g, b) \<Rightarrow> rgbToHex (255 - r) (255 - g) (255 - b))"

text \<open>
  The vocabulary of the specification (section 3, Color): a hex representation is a
  six-hex-digit string with an optional leading \<^verbatim>\<open>#\<close>, case-insensitive, two digits
  per channel. \<open>canonical_hex\<close> is the form \<^verbatim>\<open>rgbToHex\<close> writes: the \<^verbatim>\<open>#\<close>, then
  the six digits in lower case; \<open>hex_byte\<close> is one channel as two zero-padded digits.
\<close>

definition is_hex_digit :: "char \<Rightarrow> bool" where
  "is_hex_digit c = (c \<in> set ''0123456789abcdefABCDEF'')"

definition hex_body :: "string \<Rightarrow> string" where
  "hex_body c = (if take 1 c = ''#'' then drop 1 c else c)"

definition valid_hex_color :: "string \<Rightarrow> bool" where
  "valid_hex_color c = (length (hex_body c) = 6 \<and> list_all is_hex_digit (hex_body c))"

definition lower_hex :: "char \<Rightarrow> char" where
  "lower_hex c = (case map_of (zip ''ABCDEF'' ''abcdef'') c of Some l \<Rightarrow> l | None \<Rightarrow> c)"

definition canonical_hex :: "string \<Rightarrow> string" where
  "canonical_hex c = CHR ''#'' # map lower_hex (hex_body c)"

definition hex_byte :: "int \<Rightarrow> string" where
  "hex_byte v = [hex_digit (nat v div 16), hex_digit (nat v mod 16)]"

section \<open>StyleResolver: the options \<^verbatim>\<open>generateQR\<close> hands to the encoder\<close>

text \<open>
  The \<^verbatim>\<open>options\<close> object of \<^verbatim>\<open>generateQR\<close>. A field that may be absent is an
  \<open>option\<close>; \<^verbatim>\<open>transparent\<close> is always set to a boolean by both callers
  (\<^verbatim>\<open>backgroundColor === 'transparent'\<close>). \<open>size_px\<close> is the field \<^verbatim>\<open>size\<close>.
\<close>

record options =
  errorCorrection :: "string option"
  size_px :: "int option"
  margin :: "int option"
  foregroundColor :: "string option"
  backgroundColor :: "string option"
  moduleShape :: "string option"
  version :: "int option"
  transparent :: bool

text \<open>The object \<^verbatim>\<open>qrOptions\<close> passed to \<^verbatim>\<open>QRCode.toBuffer\<close>; \<open>qr_version\<close> is
  \<open>None\<close> when the property \<^verbatim>\<open>version\<close> is never assigned (automatic selection).\<close>

record qrOptions =
  errorCorrectionLevel :: string
  qr_type :: string
  quality :: rat
  qr_margin :: int
  color_dark :: string
  color_light :: string
  qr_width :: int
  qr_version :: "int option"

text \<open>The locals \<^verbatim>\<open>foregroundColor\<close>, \<^verbatim>\<open>backgroundColorToUse\<close> and \<^verbatim>\<open>qrOptions\<close> of
  \<^verbatim>\<open>generateQR\<close> (lines 44 to 63).\<close>

definition generateQR_foregroundColor :: "options \<Rightarrow> string" where
  "generateQR_foregroundColor options = or_str (foregroundColor options) ''#000000''"

definition generateQR_backgroundColorToUse :: "options \<Rightarrow> string" where
  "generateQR_backgroundColorToUse options =
     (if transparent options then invertColor (generateQR_foregroundColor options)
      else or_str (backgroundColor options) ''#FFFFFF'')"

definition generateQR_qrOptions :: "options \<Rightarrow> qrOptions" where
  "generateQR_qrOptions options =
     (let qrOptions =
            \<lparr> errorCorrectionLevel = or_str (errorCorrection options) ''M'',
              qr_type = ''png'',
              quality = 92 / 100,
              qr_margin = or_num (margin options) 4,
              color_dark = generateQR_foregroundColor options,
              color_light = generateQR_backgroundColorToUse options,
              qr_width = or_num (size_px options) 300,
              qr_version = None \<rparr>
      in case version options of
           None \<Rightarrow> qrOptions
         | Some v \<Rightarrow> if v \<noteq> 0 \<and> v > 1 then qrOptions\<lparr>qr_version := Some v\<rparr> else qrOptions)"

text \<open>The options the command line builds when only the payload is given (the defaults of
  \<^verbatim>\<open>program.option\<close>, lines 341 to 347, parsed as in lines 363 to 372).\<close>

definition cli_default_options :: options where
  "cli_default_options =
     \<lparr> errorCorrection = Some ''M'', size_px = Some 300, margin = Some 4,
       foregroundColor = Some ''#000000'', backgroundColor = Some ''#FFFFFF'',
       moduleShape = Some ''square'', version = Some 1, transparent = False \<rparr>"

section \<open>PixelClassifier and Recolorer: the pixel loop of \<^verbatim>\<open>applyAdvancedStyling\<close>\<close>

text \<open>
  The decoded PNG: \<^verbatim>\<open>width\<close>, \<^verbatim>\<open>height\<close> and the byte buffer \<^verbatim>\<open>data\<close>, four bytes
  (R, G, B, A) per pixel, row-major. Reading a buffer outside its range gives
  \<^verbatim>\<open>undefined\<close> (\<open>None\<close>); writing outside its range does nothing; a stored number is
  reduced modulo 256.
\<close>

type_synonym byte = "8 word"

record raster =
  width :: nat
  height :: nat
  data :: "byte list"

definition buf_get :: "byte list \<Rightarrow> int \<Rightarrow> int option" where
  "buf_get d i = (if 0 \<le> i \<and> i < int (length d) then Some (uint (d ! nat i)) else None)"

definition buf_set :: "byte list \<Rightarrow> int \<Rightarrow> int \<Rightarrow> byte list" where
  "buf_set d i v = (if 0 \<le> i \<and> i < int (length d) then d[nat i := word_of_int v] else d)"

text \<open>
  \<^verbatim>\<open>Math.sqrt(Math.pow(r - c[0], 2) + Math.pow(g - c[1], 2) + Math.pow(b - c[2], 2))\<close>.
  The sum of squares is an integer below \<open>2^18\<close>, exact in a double; the square root is
  taken in the reals. (Two such integers that differ have square roots further apart than
  the rounding of a double, so comparing the rounded roots is comparing the real ones.)
  An \<^verbatim>\<open>undefined\<close> operand makes the result \<^verbatim>\<open>NaN\<close>, here \<open>None\<close>, and every
  comparison with \<^verbatim>\<open>NaN\<close> is false.
\<close>

definition js_distance :: "int option \<Rightarrow> int option \<Rightarrow> int option \<Rightarrow> rgb \<Rightarrow> real option" where
  "js_distance r g b c =
     (case (r, g, b, c) of
        (Some r', Some g', Some b', (c0, c1, c2)) \<Rightarrow>
          Some (sqrt (real_of_int ((r' - c0)\<^sup>2 + (g' - c1)\<^sup>2 + (b' - c2)\<^sup>2)))
      | _ \<Rightarrow> None)"

definition js_less :: "real option \<Rightarrow> real option \<Rightarrow> bool" where
  "js_less a b = (case (a, b) of (Some x, Some y) \<Rightarrow> x < y | _ \<Rightarrow> False)"

datatype PixelClass = FOREGROUND | BACKGROUND

text \<open>Lines 101 to 119: the three channel reads, the two distances and the test
  \<^verbatim>\<open>fgDistance < bgDistance\<close>.\<close>

definition pixel_class :: "rgb \<Rightarrow> rgb \<Rightarrow> byte list \<Rightarrow> int \<Rightarrow> PixelClass" where
  "pixel_class foregroundRgb backgroundRgb d idx =
     (let r = buf_get d idx;
          g = buf_get d (idx + 1);
          b = buf_get d (idx + 2);
          fgDistance = js_distance r g b foregroundRgb;
          bgDistance = js_distance r g b backgroundRgb
      in if js_less fgDistance bgDistance then FOREGROUND else BACKGROUND)"

text \<open>Lines 119 to 140: the four stores of each branch, in the order of the source.\<close>

definition store_rgba :: "byte list \<Rightarrow> int \<Rightarrow> int \<Rightarrow> int \<Rightarrow> int \<Rightarrow> int \<Rightarrow> byte list" where
  "store_rgba d idx r g b a =
     buf_set (buf_set (buf_set (buf_set d idx r) (idx + 1) g) (idx + 2) b) (idx + 3) a"

definition process_pixel :: "options \<Rightarrow> rgb \<Rightarrow> rgb \<Rightarrow> byte list \<Rightarrow> int \<Rightarrow> byte list" where
  "process_pixel options foregroundRgb backgroundRgb d idx =
     (case pixel_class foregroundRgb backgroundRgb d idx of
        FOREGROUND \<Rightarrow>
          (case foregroundRgb of (f0, f1, f2) \<Rightarrow> store_rgba d idx f0 f1 f2 255)
      | BACKGROUND \<Rightarrow>
          if transparent options then store_rgba d idx 0 0 0 0
          else (case backgroundRgb of (b0, b1, b2) \<Rightarrow> store_rgba d idx b0 b1 b2 255))"

text \<open>Lines 97 to 142: \<^verbatim>\<open>for y\<close>, \<^verbatim>\<open>for x\<close>, with \<^verbatim>\<open>idx = (width * y + x) << 2\<close>.\<close>

definition pixel_loop :: "options \<Rightarrow> rgb \<Rightarrow> rgb \<Rightarrow> nat \<Rightarrow> nat \<Rightarrow> byte list \<Rightarrow> byte list" where
  "pixel_loop options foregroundRgb backgroundRgb w h d =
     fold (\<lambda>y d.
        fold (\<lambda>x d. process_pixel options foregroundRgb backgroundRgb d
                       (js_shl (int (w * y + x)) 2))
          [0..<w] d)
       [0..<h] d"

text \<open>Lines 92 to 142: the body of the \<^verbatim>\<open>png.parse\<close> callback on a decoded raster,
  with its locals \<^verbatim>\<open>foregroundRgb\<close> and \<^verbatim>\<open>backgroundRgb\<close>.\<close>

definition foregroundRgb_of :: "options \<Rightarrow> rgb" where
  "foregroundRgb_of options = hexToRgb (or_str (foregroundColor options) ''#000000'')"

definition backgroundRgb_of :: "string \<Rightarrow> rgb" where
  "backgroundRgb_of actualBackgroundColor = hexToRgb actualBackgroundColor"

definition recolor :: "options \<Rightarrow> string \<Rightarrow> raster \<Rightarrow> raster" where
  "recolor options actualBackgroundColor ras =
     (let foregroundRgb = foregroundRgb_of options;
          backgroundRgb = backgroundRgb_of actualBackgroundColor
      in ras\<lparr>data := pixel_loop options foregroundRgb backgroundRgb
                        (width ras) (height ras) (data ras)\<rparr>)"

text \<open>
  The vocabulary of the specification (sections 3 and 4.3). A raster is well formed when
  its buffer holds four bytes per pixel and its byte count is below \<open>2^31\<close>, the range
  in which the shift of the index does not wrap. \<open>pixel_bytes\<close> is the four bytes of
  pixel number \<open>k\<close>; \<open>pixel_rgb\<close> and \<open>pixel_rgba\<close> read the pixel in column \<open>x\<close> of
  row \<open>y\<close>. \<open>classify\<close> follows the words of the specification:
  FOREGROUND iff the Euclidean distance to the foreground colour is strictly smaller.
\<close>

definition raster_ok :: "raster \<Rightarrow> bool" where
  "raster_ok ras =
     (length (data ras) = 4 * (width ras * height ras) \<and> 4 * (width ras * height ras) < 2 ^ 31)"

definition pixel_bytes :: "byte list \<Rightarrow> nat \<Rightarrow> byte \<times> byte \<times> byte \<times> byte" where
  "pixel_bytes d k = (d ! (4 * k), d ! (4 * k + 1), d ! (4 * k + 2), d ! (4 * k + 3))"

definition pixel_rgb :: "raster \<Rightarrow> nat \<Rightarrow> nat \<Rightarrow> rgb" where
  "pixel_rgb ras x y =
     (case pixel_bytes (data ras) (width ras * y + x) of
        (r, g, b, a) \<Rightarrow> (uint r, uint g, uint b))"

definition pixel_rgba :: "raster \<Rightarrow> nat \<Rightarrow> nat \<Rightarrow> int \<times> int \<times> int \<times> int" where
  "pixel_rgba ras x y =
     (case pixel_bytes (data ras) (width ras * y + x) of
        (r, g, b, a) \<Rightarrow> (uint r, uint g, uint b, uint a))"

definition euclidean_distance :: "rgb \<Rightarrow> rgb \<Rightarrow> real" where
  "euclidean_distance p c =
     (case (p, c) of
        ((r, g, b), (c0, c1, c2)) \<Rightarrow> sqrt (real_of_int ((r - c0)\<^sup>2 + (g - c1)\<^sup>2 + (b - c2)\<^sup>2)))"

definition classify :: "rgb \<Rightarrow> rgb \<Rightarrow> rgb \<Rightarrow> PixelClass" where
  "classify p f b =
     (if euclidean_distance p f < euclidean_distance p b then FOREGROUND else BACKGROUND)"

text \<open>The three rules of the Recolorer (specification, section 4.4): the colour and
  alpha a pixel of a given class receives.\<close>

definition recolored :: "options \<Rightarrow> rgb \<Rightarrow> rgb \<Rightarrow> PixelClass \<Rightarrow> int \<times> int \<times> int \<times> int" where
  "recolored options f b c =
     (case c of
        FOREGROUND \<Rightarrow> (case f of (f0, f1, f2) \<Rightarrow> (f0, f1, f2, 255))
      | BACKGROUND \<Rightarrow>
          if transparent options then (0, 0, 0, 0)
          else (case b of (b0, b1, b2) \<Rightarrow> (b0, b1, b2, 255)))"

text \<open>The four bytes these rules prescribe for pixel number \<open>k\<close> of a buffer, from the
  class of its three colour bytes.\<close>

definition recolored_bytes ::
  "options \<Rightarrow> rgb \<Rightarrow> rgb \<Rightarrow> byte list \<Rightarrow> nat \<Rightarrow> byte \<times> byte \<times> byte \<times> byte" where
  "recolored_bytes options f b d k =
     (case recolored options f b
             (classify (uint (d ! (4 * k)), uint (d ! (4 * k + 1)), uint (d ! (4 * k + 2))) f b)
      of (a0, a1, a2, a3) \<Rightarrow> (word_of_int a0, word_of_int a1, word_of_int a2, word_of_int a3))"

text \<open>
  The synthetic rasters of the specification's section 8, two pixels wide and one high:
  a black pixel followed by a white one; and, for foreground \<open>(0, 0, 0)\<close> and background
  \<open>(0, 0, 254)\<close>, a pixel \<open>(0, 0, 127)\<close> at equal distance from both followed by a
  pixel nearer the foreground, with an alpha byte of 7.
\<close>

definition two_tone_raster :: raster where
  "two_tone_raster = \<lparr> width = 2, height = 1, data = [0, 0, 0, 255, 255, 255, 255, 255] \<rparr>"

definition tie_raster :: raster where
  "tie_raster = \<lparr> width = 2, height = 1, data = [0, 0, 127, 255, 0, 0, 10, 7] \<rparr>"

section \<open>\<^verbatim>\<open>applyAdvancedStyling\<close> and \<^verbatim>\<open>generateQR\<close>\<close>

text \<open>
  A JavaScript \<^verbatim>\<open>Error\<close> with its message. A promise is modelled by the state it
  settles in. \<open>new_Promise\<close> is the constructor applied to an executor whose outcome is
  known: the constructor itself never throws (an exception of the executor rejects the
  promise), so it returns normally (\<open>Inr\<close>) with the promise. The encoder
  \<^verbatim>\<open>QRCode.toBuffer\<close>, the decoder \<^verbatim>\<open>png.parse\<close> (which calls back with an error or a
  raster) and the encoder \<^verbatim>\<open>PNG.sync.write\<close> are parameters. A result carries the lines
  written to the console.
\<close>

datatype error = Error string

datatype 'a promise = Resolved 'a | Rejected error

type_synonym buffer = "byte list"

definition new_Promise :: "'a promise \<Rightarrow> error + 'a promise" where
  "new_Promise settled = Inr settled"

definition error_message :: "error \<Rightarrow> string" where
  "error_message e = (case e of Error m \<Rightarrow> m)"

definition applyAdvancedStyling ::
  "(buffer \<Rightarrow> error + raster) \<Rightarrow> (raster \<Rightarrow> buffer) \<Rightarrow>
   buffer \<Rightarrow> options \<Rightarrow> string \<Rightarrow> buffer promise \<times> string list" where
  "applyAdvancedStyling parse write buffer options actualBackgroundColor =
     (case new_Promise
             (case parse buffer of
                Inl error \<Rightarrow> Rejected error
              | Inr ras \<Rightarrow> Resolved (write (recolor options actualBackgroundColor ras)))
      of
        Inr p \<Rightarrow> (p, [])
      | Inl error \<Rightarrow>
          (Resolved buffer,
           [''Transparency processing error: '' @ error_message error,
            ''Falling back to standard QR generation...'']))"

definition generateQR ::
  "(string \<Rightarrow> qrOptions \<Rightarrow> buffer promise) \<Rightarrow> (buffer \<Rightarrow> error + raster) \<Rightarrow>
   (raster \<Rightarrow> buffer) \<Rightarrow> string \<Rightarrow> options \<Rightarrow> buffer promise \<times> string list" where
  "generateQR toBuffer parse write payload options =
     (let backgroundColorToUse = generateQR_backgroundColorToUse options;
          qrOptions = generateQR_qrOptions options;
          attempt =
            (case toBuffer payload qrOptions of
               Rejected error \<Rightarrow> (Rejected error, [])
             | Resolved buffer \<Rightarrow>
                 if transparent options \<or>
                    (truthy_str (moduleShape options) \<and> moduleShape options \<noteq> Some ''square'')
                 then applyAdvancedStyling parse write buffer options backgroundColorToUse
                 else (Resolved buffer, []))
      in case attempt of
           (Resolved out, console) \<Rightarrow> (Resolved out, console)
         | (Rejected error, console) \<Rightarrow>
             (Rejected (Error (''QR generation failed: '' @ error_message error)), console))"



section \<open>Verification\<close>

subsection \<open>Hexadecimal digits and the shifts of \<^verbatim>\<open>rgbToHex\<close>\<close>

lemma hex_digit_val_hex_digit: "\<forall>d<16. hex_digit_val (hex_digit d) = int d"
  by (simp add: eval_nat_numeral All_less_Suc hex_digit_def hex_digit_val_def)

lemma is_hex_digit_hex_digit: "\<forall>d<16. is_hex_digit (hex_digit d)"
  by (simp add: eval_nat_numeral All_less_Suc hex_digit_def is_hex_digit_def)

lemma hex_digit_val_range: "0 \<le> hex_digit_val c \<and> hex_digit_val c < 16"
  by (simp add: hex_digit_val_def Let_def)

lemma regex_class_is_hex_digit: "regex_class c = is_hex_digit c"
  by (auto simp: is_hex_digit_def regex_class_def)

lemma ToInt32_small: "0 \<le> n \<Longrightarrow> n < 2 ^ 31 \<Longrightarrow> ToInt32 n = n"
  by (simp add: ToInt32_def)

lemma js_shl_24: "js_shl 1 24 = 16777216"
  by (simp add: js_shl_def ToInt32_def)

lemma js_shl_16: "0 \<le> r \<Longrightarrow> r \<le> 255 \<Longrightarrow> js_shl r 16 = r * 65536"
  by (simp add: js_shl_def ToInt32_small)

lemma js_shl_8: "0 \<le> g \<Longrightarrow> g \<le> 255 \<Longrightarrow> js_shl g 8 = g * 256"
  by (simp add: js_shl_def ToInt32_small)

lemma hex_digits_step: "0 < n \<Longrightarrow> d < 16 \<Longrightarrow> hex_digits (16 * n + d) = hex_digits n @ [hex_digit d]"
  by (subst hex_digits.simps) simp

lemma hex_digits_1: "hex_digits 1 = ''1''"
  by (subst hex_digits.simps) (simp add: hex_digit_def)

lemma hex_char_lower_all:
  "list_all (\<lambda>c. hex_digit (nat (hex_digit_val c)) = lower_hex c) ''0123456789abcdefABCDEF''"
  by (simp add: hex_digit_val_def hex_digit_def lower_hex_def)

lemma hex_char_lower: "is_hex_digit c \<Longrightarrow> hex_digit (nat (hex_digit_val c)) = lower_hex c"
  using hex_char_lower_all unfolding is_hex_digit_def list_all_iff by blast

lemma pos16: "0 < n \<Longrightarrow> 0 < 16 * n + (d::nat)"
  by simp

lemma hex_digits_nested:
  assumes "0 < n" "r1 < 16" "r0 < 16" "g1 < 16" "g0 < 16" "b1 < 16" "b0 < 16"
  shows "hex_digits (16 * (16 * (16 * (16 * (16 * (16 * n + r1) + r0) + g1) + g0) + b1) + b0) =
           hex_digits n @ [hex_digit r1, hex_digit r0, hex_digit g1, hex_digit g0, hex_digit b1, hex_digit b0]"
  using assms by (simp only: hex_digits_step pos16 append_assoc append.simps)

lemma hex_digits_bytes:
  assumes "R < 256" "G < 256" "B < 256"
  shows "hex_digits (16777216 + R * 65536 + G * 256 + B) =
           ''1'' @ [hex_digit (R div 16), hex_digit (R mod 16), hex_digit (G div 16),
                   hex_digit (G mod 16), hex_digit (B div 16), hex_digit (B mod 16)]"
proof -
  define r1 r0 g1 g0 b1 b0 where
    "r1 = R div 16" and "r0 = R mod 16" and "g1 = G div 16" and "g0 = G mod 16"
    and "b1 = B div 16" and "b0 = B mod 16"
  have lt: "r1 < 16" "r0 < 16" "g1 < 16" "g0 < 16" "b1 < 16" "b0 < 16"
    using assms by (simp_all add: r0_def g0_def b0_def r1_def g1_def b1_def)
  have R: "R = 16 * r1 + r0" and G: "G = 16 * g1 + g0" and B: "B = 16 * b1 + b0"
    by (simp_all add: r1_def r0_def g1_def g0_def b1_def b0_def)
  have eq: "16777216 + R * 65536 + G * 256 + B =
          16 * (16 * (16 * (16 * (16 * (16 * 1 + r1) + r0) + g1) + g0) + b1) + b0"
    by (simp add: R G B)
  have "hex_digits (16 * (16 * (16 * (16 * (16 * (16 * 1 + r1) + r0) + g1) + g0) + b1) + b0) =
          hex_digits 1 @ [hex_digit r1, hex_digit r0, hex_digit g1, hex_digit g0, hex_digit b1, hex_digit b0]"
    by (rule hex_digits_nested) (use lt in simp_all)
  then have "hex_digits (16777216 + R * 65536 + G * 256 + B) =
          hex_digits 1 @ [hex_digit r1, hex_digit r0, hex_digit g1, hex_digit g0, hex_digit b1, hex_digit b0]"
    by (simp only: eq)
  then show ?thesis
    by (simp only: hex_digits_1 r1_def r0_def g1_def g0_def b1_def b0_def)
qed

lemma rgbToHex_bytes:
  assumes "0 \<le> r" "r \<le> 255" "0 \<le> g" "g \<le> 255" "0 \<le> b" "b \<le> 255"
  shows "rgbToHex r g b = CHR ''#'' # hex_byte r @ hex_byte g @ hex_byte b"
proof -
  have n: "nat (16777216 + r * 65536 + g * 256 + b) =
             16777216 + nat r * 65536 + nat g * 256 + nat b"
    using assms by (simp add: nat_add_distrib nat_mult_distrib)
  have "toString16 (js_shl 1 24 + js_shl r 16 + js_shl g 8 + b) =
          hex_digits (16777216 + nat r * 65536 + nat g * 256 + nat b)"
    using assms by (simp add: toString16_def js_shl_24 js_shl_16 js_shl_8 n)
  also have "\<dots> = ''1'' @ [hex_digit (nat r div 16), hex_digit (nat r mod 16),
      hex_digit (nat g div 16), hex_digit (nat g mod 16),
      hex_digit (nat b div 16), hex_digit (nat b mod 16)]"
    by (rule hex_digits_bytes) (use assms in simp_all)
  finally show ?thesis
    by (simp add: rgbToHex_def hex_byte_def)
qed

subsection \<open>The regular expression of \<^verbatim>\<open>hexToRgb\<close>\<close>

lemma regex_group_Some:
  "regex_group s = Some (g, rest) \<longleftrightarrow>
     (\<exists>a b. s = a # b # rest \<and> g = [a, b] \<and> regex_class a \<and> regex_class b)"
  by (cases s rule: regex_group.cases) auto

lemma length_6_conv: "length s = 6 \<longleftrightarrow> (\<exists>a b c d e f. s = [a, b, c, d, e, f])"
  by (auto simp: eval_nat_numeral length_Suc_conv)

lemma regex_groups_Some:
  "regex_groups s = Some x \<longleftrightarrow>
     (\<exists>a b c d e f. s = [a, b, c, d, e, f] \<and> x = ([a, b], [c, d], [e, f]) \<and>
        regex_class a \<and> regex_class b \<and> regex_class c \<and> regex_class d \<and>
        regex_class e \<and> regex_class f)"
  unfolding regex_groups_def
  by (auto simp: regex_group_Some split: option.splits if_splits)

lemma regex_groups_hash: "regex_groups (CHR ''#'' # rest) = None"
proof (cases "regex_groups (CHR ''#'' # rest)")
  case None
  then show ?thesis .
next
  case (Some x)
  then have "regex_class CHR ''#''"
    unfolding regex_groups_Some by auto
  then show ?thesis by (simp add: regex_class_def)
qed

lemma regex_exec_body: "regex_exec hex = regex_groups (hex_body hex)"
  by (cases hex) (auto simp: regex_exec_def hex_body_def regex_groups_hash split: option.splits)


lemma parseInt16_pair: "parseInt16 [a, b] = 16 * hex_digit_val a + hex_digit_val b"
  by (simp add: parseInt16_def)

lemma parseInt16_pair_range: "0 \<le> parseInt16 [a, b] \<and> parseInt16 [a, b] \<le> 255"
  using hex_digit_val_range [of a] hex_digit_val_range [of b] by (simp add: parseInt16_pair)

lemma hexToRgb_range:
  assumes "hexToRgb hex = (r, g, b)"
  shows "0 \<le> r \<and> r \<le> 255 \<and> 0 \<le> g \<and> g \<le> 255 \<and> 0 \<le> b \<and> b \<le> 255"
proof (cases "regex_exec hex")
  case None
  with assms show ?thesis by (simp add: hexToRgb_def)
next
  case (Some x)
  then obtain c1 c2 c3 c4 c5 c6 where "x = ([c1, c2], [c3, c4], [c5, c6])"
    unfolding regex_exec_body regex_groups_Some by auto
  with Some assms have "r = parseInt16 [c1, c2]" "g = parseInt16 [c3, c4]" "b = parseInt16 [c5, c6]"
    by (simp_all add: hexToRgb_def)
  then show ?thesis using parseInt16_pair_range by simp
qed


lemma hexToRgb_six:
  assumes "list_all is_hex_digit [a, b, c, d, e, f]" "hex = [a, b, c, d, e, f] \<or> hex = CHR ''#'' # [a, b, c, d, e, f]"
  shows "hexToRgb hex = (parseInt16 [a, b], parseInt16 [c, d], parseInt16 [e, f])"
proof -
  have "is_hex_digit a" using assms(1) by simp
  then have nh: "a \<noteq> CHR ''#''" by (auto simp: is_hex_digit_def)
  have "hex_body hex = [a, b, c, d, e, f]"
    using assms(2) nh by (auto simp: hex_body_def)
  moreover have "regex_groups [a, b, c, d, e, f] = Some ([a, b], [c, d], [e, f])"
    unfolding regex_groups_Some using assms(1) by (simp add: regex_class_is_hex_digit)
  ultimately show ?thesis by (simp add: hexToRgb_def regex_exec_body)
qed

subsection \<open>Round trips between \<^verbatim>\<open>rgbToHex\<close>, \<^verbatim>\<open>hexToRgb\<close> and \<^verbatim>\<open>invertColor\<close>\<close>

lemma hex_byte_parse: "0 \<le> v \<Longrightarrow> v \<le> 255 \<Longrightarrow> parseInt16 (hex_byte v) = v"
proof -
  assume v: "0 \<le> v" "v \<le> 255"
  then have lt: "nat v div 16 < 16" "nat v mod 16 < 16" by simp_all
  have "parseInt16 (hex_byte v) = 16 * int (nat v div 16) + int (nat v mod 16)"
    using lt hex_digit_val_hex_digit by (simp add: hex_byte_def parseInt16_pair)
  also have "\<dots> = int (16 * (nat v div 16) + nat v mod 16)"
    by (simp only: of_nat_add of_nat_mult of_nat_numeral)
  also have "\<dots> = int (nat v)"
    by (simp only: mult_div_mod_eq)
  finally show ?thesis using v by simp
qed

lemma hex_byte_digits: "0 \<le> v \<Longrightarrow> v \<le> 255 \<Longrightarrow> list_all is_hex_digit (hex_byte v)"
proof -
  assume v: "0 \<le> v" "v \<le> 255"
  then have lt: "nat v div 16 < 16" "nat v mod 16 < 16" by simp_all
  then show ?thesis using is_hex_digit_hex_digit by (simp add: hex_byte_def)
qed

lemma hexToRgb_rgbToHex:
  assumes "0 \<le> r" "r \<le> 255" "0 \<le> g" "g \<le> 255" "0 \<le> b" "b \<le> 255"
  shows "hexToRgb (rgbToHex r g b) = (r, g, b)"
proof -
  obtain r1 r0 where r: "hex_byte r = [r1, r0]" by (simp add: hex_byte_def)
  obtain g1 g0 where g: "hex_byte g = [g1, g0]" by (simp add: hex_byte_def)
  obtain b1 b0 where b: "hex_byte b = [b1, b0]" by (simp add: hex_byte_def)
  have form: "rgbToHex r g b = CHR ''#'' # [r1, r0, g1, g0, b1, b0]"
    using assms by (simp add: rgbToHex_bytes r g b)
  have digits: "list_all is_hex_digit [r1, r0, g1, g0, b1, b0]"
    using hex_byte_digits [OF assms(1,2)] hex_byte_digits [OF assms(3,4)]
      hex_byte_digits [OF assms(5,6)] by (simp add: r g b)
  have "hexToRgb (rgbToHex r g b) = (parseInt16 [r1, r0], parseInt16 [g1, g0], parseInt16 [b1, b0])"
    by (rule hexToRgb_six [OF digits]) (simp add: form)
  also have "\<dots> = (r, g, b)"
    using hex_byte_parse [OF assms(1,2)] hex_byte_parse [OF assms(3,4)]
      hex_byte_parse [OF assms(5,6)] by (simp add: r g b)
  finally show ?thesis .
qed

lemma invertColor_twice:
  "invertColor (invertColor c) = (case hexToRgb c of (r, g, b) \<Rightarrow> rgbToHex r g b)"
proof -
  obtain r g b where c: "hexToRgb c = (r, g, b)" by (cases "hexToRgb c") auto
  from hexToRgb_range [OF c] have
    "hexToRgb (rgbToHex (255 - r) (255 - g) (255 - b)) = (255 - r, 255 - g, 255 - b)"
    by (intro hexToRgb_rgbToHex) simp_all
  then show ?thesis by (simp add: invertColor_def c)
qed

lemma hex_byte_lower:
  assumes "is_hex_digit a" "is_hex_digit b"
  shows "hex_byte (parseInt16 [a, b]) = [lower_hex a, lower_hex b]"
proof -
  define va vb where "va = nat (hex_digit_val a)" and "vb = nat (hex_digit_val b)"
  have a: "hex_digit_val a = int va" and b: "hex_digit_val b = int vb"
    using hex_digit_val_range [of a] hex_digit_val_range [of b] by (simp_all add: va_def vb_def)
  have lt: "va < 16" "vb < 16"
    using hex_digit_val_range [of a] hex_digit_val_range [of b] unfolding va_def vb_def by linarith+
  have "nat (parseInt16 [a, b]) = 16 * va + vb"
    by (simp add: parseInt16_pair a b nat_add_distrib nat_mult_distrib)
  then have "hex_byte (parseInt16 [a, b]) = [hex_digit va, hex_digit vb]"
    using lt by (simp add: hex_byte_def)
  then show ?thesis
    using hex_char_lower [OF assms(1)] hex_char_lower [OF assms(2)] by (simp add: va_def vb_def)
qed

lemma rgbToHex_hexToRgb_canonical:
  assumes "valid_hex_color c"
  shows "(case hexToRgb c of (r, g, b) \<Rightarrow> rgbToHex r g b) = canonical_hex c"
proof -
  from assms obtain a b d e f h where body: "hex_body c = [a, b, d, e, f, h]"
    unfolding valid_hex_color_def length_6_conv by auto
  with assms have digits: "list_all is_hex_digit [a, b, d, e, f, h]"
    by (simp add: valid_hex_color_def)
  have "c = [a, b, d, e, f, h] \<or> c = CHR ''#'' # [a, b, d, e, f, h]"
    using body by (cases c) (auto simp: hex_body_def split: if_splits)
  from hexToRgb_six [OF digits this]
  have rgb: "hexToRgb c = (parseInt16 [a, b], parseInt16 [d, e], parseInt16 [f, h])" .
  have "rgbToHex (parseInt16 [a, b]) (parseInt16 [d, e]) (parseInt16 [f, h]) =
          CHR ''#'' # hex_byte (parseInt16 [a, b]) @ hex_byte (parseInt16 [d, e]) @ hex_byte (parseInt16 [f, h])"
    using parseInt16_pair_range by (intro rgbToHex_bytes) simp_all
  also have "\<dots> = CHR ''#'' # map lower_hex [a, b, d, e, f, h]"
    using digits by (simp add: hex_byte_lower)
  finally show ?thesis by (simp add: rgb canonical_hex_def body)
qed

text \<open>
  \<^bold>\<open>C10\<close>. For channel values \<open>r\<close>, \<open>g\<close>, \<open>b\<close> between 0 and 255, \<^verbatim>\<open>rgbToHex\<close>
  writes a \<^verbatim>\<open>#\<close> followed by exactly six hex digits, each channel zero-padded to two
  digits, and \<^verbatim>\<open>hexToRgb\<close> reads the three channels back.
\<close>

theorem C10_rgbToHex_roundtrip:
  assumes "0 \<le> r" "r \<le> 255" "0 \<le> g" "g \<le> 255" "0 \<le> b" "b \<le> 255"
  shows "rgbToHex r g b = CHR ''#'' # hex_byte r @ hex_byte g @ hex_byte b
       \<and> length (rgbToHex r g b) = 7
       \<and> list_all is_hex_digit (drop 1 (rgbToHex r g b))
       \<and> hexToRgb (rgbToHex r g b) = (r, g, b)"
proof -
  have form: "rgbToHex r g b = CHR ''#'' # hex_byte r @ hex_byte g @ hex_byte b"
    using assms by (rule rgbToHex_bytes)
  have len: "length (rgbToHex r g b) = 7"
    by (simp add: form hex_byte_def)
  have digits: "list_all is_hex_digit (drop 1 (rgbToHex r g b))"
    using hex_byte_digits [OF assms(1,2)] hex_byte_digits [OF assms(3,4)]
      hex_byte_digits [OF assms(5,6)] by (simp add: form)
  have rt: "hexToRgb (rgbToHex r g b) = (r, g, b)"
    using assms by (rule hexToRgb_rgbToHex)
  show ?thesis using form len digits rt by blast
qed

theorem C10_rgbToHex_roundtrip_witness:
  "rgbToHex 33 150 243 = ''#2196f3'' \<and> rgbToHex 0 10 255 = ''#000aff''
     \<and> hexToRgb (rgbToHex 33 150 243) = (33, 150, 243)"
proof -
  have a: "rgbToHex 33 150 243 = CHR ''#'' # hex_byte 33 @ hex_byte 150 @ hex_byte 243
       \<and> length (rgbToHex 33 150 243) = 7
       \<and> list_all is_hex_digit (drop 1 (rgbToHex 33 150 243))
       \<and> hexToRgb (rgbToHex 33 150 243) = (33, 150, 243)"
    by (rule C10_rgbToHex_roundtrip) simp_all
  have b: "rgbToHex 0 10 255 = CHR ''#'' # hex_byte 0 @ hex_byte 10 @ hex_byte 255
       \<and> length (rgbToHex 0 10 255) = 7
       \<and> list_all is_hex_digit (drop 1 (rgbToHex 0 10 255))
       \<and> hexToRgb (rgbToHex 0 10 255) = (0, 10, 255)"
    by (rule C10_rgbToHex_roundtrip) simp_all
  from a have 1: "rgbToHex 33 150 243 = CHR ''#'' # hex_byte 33 @ hex_byte 150 @ hex_byte 243"
    by blast
  from b have 2: "rgbToHex 0 10 255 = CHR ''#'' # hex_byte 0 @ hex_byte 10 @ hex_byte 255"
    by blast
  from a have 3: "hexToRgb (rgbToHex 33 150 243) = (33, 150, 243)"
    by blast
  have 4: "CHR ''#'' # hex_byte 33 @ hex_byte 150 @ hex_byte 243 = ''#2196f3''"
    by (simp add: hex_byte_def hex_digit_def)
  have 5: "CHR ''#'' # hex_byte 0 @ hex_byte 10 @ hex_byte 255 = ''#000aff''"
    by (simp add: hex_byte_def hex_digit_def)
  show ?thesis using 1 2 3 4 5 by (simp only: simp_thms)
qed

text \<open>
  \<^bold>\<open>C5\<close>. The claim: for every valid six-digit hex colour string \<open>c\<close>,
  \<^verbatim>\<open>invertColor(invertColor(c)) == c\<close>. \<^verbatim>\<open>rgbToHex\<close> always writes a leading
  \<^verbatim>\<open>#\<close> and lower-case digits, so the string comparison fails for an upper-case
  input (and for one without the \<^verbatim>\<open>#\<close>).
\<close>

theorem C5_invertColor_roundtrip_counterexample:
  "valid_hex_color ''#FFFFFF'' \<and> invertColor (invertColor ''#FFFFFF'') \<noteq> ''#FFFFFF''"
proof -
  have v: "valid_hex_color ''#FFFFFF''"
    by (simp add: valid_hex_color_def hex_body_def is_hex_digit_def)
  have "invertColor (invertColor ''#FFFFFF'') = canonical_hex ''#FFFFFF''"
    using rgbToHex_hexToRgb_canonical [OF v] by (simp add: invertColor_twice)
  also have "\<dots> = ''#ffffff''"
    by (simp add: canonical_hex_def hex_body_def lower_hex_def)
  finally show ?thesis using v by simp
qed

text \<open>
  \<^bold>\<open>C5\<close>, amended. For every valid six-digit hex colour string \<open>c\<close>,
  \<^verbatim>\<open>invertColor(invertColor(c))\<close> is \<open>c\<close> in canonical form (a leading \<^verbatim>\<open>#\<close>, then the
  six digits of \<open>c\<close> in lower case); it denotes the same colour as \<open>c\<close>, and it equals
  \<open>c\<close> as a string exactly when \<open>c\<close> is already in canonical form.
\<close>

theorem C5_invertColor_roundtrip_canonical:
  assumes "valid_hex_color c"
  shows "invertColor (invertColor c) = canonical_hex c
       \<and> hexToRgb (invertColor (invertColor c)) = hexToRgb c
       \<and> (invertColor (invertColor c) = c) = (canonical_hex c = c)"
proof -
  have canon: "invertColor (invertColor c) = canonical_hex c"
    using rgbToHex_hexToRgb_canonical [OF assms] by (simp add: invertColor_twice)
  obtain r g b where rgb: "hexToRgb c = (r, g, b)" by (cases "hexToRgb c") auto
  have "hexToRgb (rgbToHex r g b) = (r, g, b)"
    using hexToRgb_range [OF rgb] by (intro hexToRgb_rgbToHex) simp_all
  then have same: "hexToRgb (invertColor (invertColor c)) = hexToRgb c"
    by (simp add: invertColor_twice rgb)
  show ?thesis using canon same by simp
qed

theorem C5_invertColor_roundtrip_canonical_witness:
  "valid_hex_color ''#2196f3'' \<and> invertColor (invertColor ''#2196f3'') = ''#2196f3''
     \<and> valid_hex_color ''2196F3'' \<and> invertColor (invertColor ''2196F3'') = ''#2196f3''"
proof -
  have 1: "valid_hex_color ''#2196f3''"
    by (simp add: valid_hex_color_def hex_body_def is_hex_digit_def)
  have 2: "valid_hex_color ''2196F3''"
    by (simp add: valid_hex_color_def hex_body_def is_hex_digit_def)
  show ?thesis
    using 1 2 C5_invertColor_roundtrip_canonical [OF 1] C5_invertColor_roundtrip_canonical [OF 2]
    by (simp add: canonical_hex_def hex_body_def lower_hex_def)
qed

subsection \<open>The options handed to the encoder\<close>

text \<open>
  \<^bold>\<open>C4\<close>. The background colour passed to the encoder (\<^verbatim>\<open>color.light\<close>) is
  \<^verbatim>\<open>invertColor\<close> of the foreground colour when transparency is requested; otherwise it
  is the caller's background colour, and white \<^verbatim>\<open>#FFFFFF\<close> when none is supplied (absent,
  or the empty string, which \<^verbatim>\<open>||\<close> treats as absent). The foreground colour is the
  caller's, black \<^verbatim>\<open>#000000\<close> by default.
\<close>

theorem C4_effective_background:
  "(transparent options \<longrightarrow>
      color_light (generateQR_qrOptions options) =
        invertColor (generateQR_foregroundColor options))
   \<and> (\<not> transparent options \<and> backgroundColor options = Some b \<and> b \<noteq> [] \<longrightarrow>
      color_light (generateQR_qrOptions options) = b)
   \<and> (\<not> transparent options \<and> (backgroundColor options = None \<or> backgroundColor options = Some []) \<longrightarrow>
      color_light (generateQR_qrOptions options) = ''#FFFFFF'')
   \<and> (foregroundColor options = Some f \<and> f \<noteq> [] \<longrightarrow> generateQR_foregroundColor options = f)
   \<and> (foregroundColor options = None \<longrightarrow> generateQR_foregroundColor options = ''#000000'')
   \<and> color_dark (generateQR_qrOptions options) = generateQR_foregroundColor options"
  by (auto simp: generateQR_qrOptions_def generateQR_backgroundColorToUse_def
        generateQR_foregroundColor_def or_str_def Let_def split: option.splits)

lemma invertColor_2196F3: "invertColor ''#2196F3'' = ''#de690c''"
proof -
  have "hexToRgb ''#2196F3'' = (parseInt16 ''21'', parseInt16 ''96'', parseInt16 ''F3'')"
    by (rule hexToRgb_six) (simp_all add: is_hex_digit_def)
  then have rgb: "hexToRgb ''#2196F3'' = (33, 150, 243)"
    by (simp add: parseInt16_pair hex_digit_val_def)
  have "rgbToHex 222 105 12 = CHR ''#'' # hex_byte 222 @ hex_byte 105 @ hex_byte 12"
    by (rule rgbToHex_bytes) simp_all
  then show ?thesis
    by (simp add: invertColor_def rgb hex_byte_def hex_digit_def)
qed

theorem C4_effective_background_witness:
  "color_light (generateQR_qrOptions
      (cli_default_options\<lparr>foregroundColor := Some ''#2196F3'', transparent := True\<rparr>)) = ''#de690c''
   \<and> color_light (generateQR_qrOptions
      (cli_default_options\<lparr>backgroundColor := Some ''#FFF3E0''\<rparr>)) = ''#FFF3E0''
   \<and> color_light (generateQR_qrOptions
      (cli_default_options\<lparr>backgroundColor := None\<rparr>)) = ''#FFFFFF''"
proof -
  let ?o1 = "cli_default_options\<lparr>foregroundColor := Some ''#2196F3'', transparent := True\<rparr>"
  let ?o2 = "cli_default_options\<lparr>backgroundColor := Some ''#FFF3E0''\<rparr>"
  let ?o3 = "cli_default_options\<lparr>backgroundColor := None\<rparr>"
  have 1: "color_light (generateQR_qrOptions ?o1) = invertColor (generateQR_foregroundColor ?o1)"
    using C4_effective_background [of ?o1] by (simp add: cli_default_options_def)
  have f: "generateQR_foregroundColor ?o1 = ''#2196F3''"
    using C4_effective_background [of ?o1 _ "''#2196F3''"] by (simp add: cli_default_options_def)
  have 2: "color_light (generateQR_qrOptions ?o2) = ''#FFF3E0''"
    using C4_effective_background [of ?o2 "''#FFF3E0''"] by (simp add: cli_default_options_def)
  have 3: "color_light (generateQR_qrOptions ?o3) = ''#FFFFFF''"
    using C4_effective_background [of ?o3] by (simp add: cli_default_options_def)
  show ?thesis using 1 2 3 by (simp only: f invertColor_2196F3 simp_thms)
qed

text \<open>
  \<^bold>\<open>C9\<close>. The claim: every requested version \<open>v\<close> with \<open>1 \<le> v \<le> 40\<close> is passed to
  the encoder. The guard of \<^verbatim>\<open>generateQR\<close> is \<^verbatim>\<open>options.version > 1\<close>: version 1, the
  default of the command line flag \<^verbatim>\<open>--qr-version\<close>, is not passed.
\<close>

theorem C9_version_one_counterexample:
  "(1::int) \<le> 1 \<and> (1::int) \<le> 40 \<and> version cli_default_options = Some 1
   \<and> qr_version (generateQR_qrOptions cli_default_options) \<noteq> Some 1"
  by (simp add: generateQR_qrOptions_def cli_default_options_def Let_def)

text \<open>
  \<^bold>\<open>C9\<close>, amended. Every requested version \<open>v\<close> with \<open>2 \<le> v \<le> 40\<close> is passed to the
  encoder as it is; when the version is 0, 1 or absent, no version is passed (automatic
  selection).
\<close>

theorem C9_version_passed:
  "(version options = Some v \<and> 2 \<le> v \<and> v \<le> 40 \<longrightarrow>
      qr_version (generateQR_qrOptions options) = Some v)
   \<and> (version options = None \<or> version options = Some 0 \<or> version options = Some 1 \<longrightarrow>
      qr_version (generateQR_qrOptions options) = None)"
  by (auto simp: generateQR_qrOptions_def Let_def split: option.splits)

theorem C9_version_passed_witness:
  "qr_version (generateQR_qrOptions (cli_default_options\<lparr>version := Some 7\<rparr>)) = Some 7
   \<and> qr_version (generateQR_qrOptions (cli_default_options\<lparr>version := Some 40\<rparr>)) = Some 40
   \<and> qr_version (generateQR_qrOptions (cli_default_options\<lparr>version := Some 0\<rparr>)) = None
   \<and> qr_version (generateQR_qrOptions (cli_default_options\<lparr>version := None\<rparr>)) = None
   \<and> qr_version (generateQR_qrOptions cli_default_options) = None"
  using C9_version_passed [of "cli_default_options\<lparr>version := Some 7\<rparr>" 7]
    C9_version_passed [of "cli_default_options\<lparr>version := Some 40\<rparr>" 40]
    C9_version_passed [of "cli_default_options\<lparr>version := Some 0\<rparr>"]
    C9_version_passed [of "cli_default_options\<lparr>version := None\<rparr>"]
    C9_version_passed [of "cli_default_options"]
  by (simp add: cli_default_options_def)

subsection \<open>Failure of the styling pass\<close>

lemma applyAdvancedStyling_decode_failure:
  "parse buffer = Inl e \<Longrightarrow>
   applyAdvancedStyling parse write buffer options bg = (Rejected e, [])"
  by (simp add: applyAdvancedStyling_def new_Promise_def)

lemma applyAdvancedStyling_never_warns:
  "snd (applyAdvancedStyling parse write buffer options bg) = []"
  by (simp add: applyAdvancedStyling_def new_Promise_def)

lemma generateQR_decode_failure:
  assumes "toBuffer payload (generateQR_qrOptions options) = Resolved buffer"
    and "parse buffer = Inl (Error m)"
    and "transparent options"
  shows "generateQR toBuffer parse write payload options =
           (Rejected (Error (''QR generation failed: '' @ m)), [])"
  using assms
  by (simp add: generateQR_def Let_def applyAdvancedStyling_decode_failure error_message_def)

text \<open>
  \<^bold>\<open>C3\<close>. The claim: a failure of the styling post-process returns the unstyled buffer
  with a warning. In \<^verbatim>\<open>applyAdvancedStyling\<close> the promise is returned from inside the
  \<^verbatim>\<open>try\<close> without \<^verbatim>\<open>await\<close>, so its rejection never reaches the \<^verbatim>\<open>catch\<close> that
  holds the fallback; \<^verbatim>\<open>generateQR\<close> awaits it and rethrows. With a decoder that reports
  an error, a transparent request ends rejected, with nothing logged.
\<close>

theorem C3_decode_failure_is_fatal:
  "generateQR (\<lambda>payload q. Resolved [1, 2, 3]) (\<lambda>b. Inl (Error ''bad png'')) data
      ''https://example.com'' (cli_default_options\<lparr>transparent := True\<rparr>)
     = (Rejected (Error ''QR generation failed: bad png''), [])"
  by (simp add: generateQR_def Let_def applyAdvancedStyling_decode_failure
        cli_default_options_def error_message_def)

subsection \<open>One step of the pixel loop\<close>

lemma js_shl_2: "4 * k < 2 ^ 31 \<Longrightarrow> js_shl (int k) 2 = int (4 * k)"
proof -
  assume "4 * k < 2 ^ 31"
  then have "int k * 4 < 2 ^ 31" by simp
  then show ?thesis by (simp add: js_shl_def ToInt32_small)
qed

lemma length_buf_set: "length (buf_set d i v) = length d"
  by (simp add: buf_set_def)

lemma length_store_rgba: "length (store_rgba d i r g b a) = length d"
  by (simp add: store_rgba_def length_buf_set)

lemma length_process_pixel: "length (process_pixel options f b d i) = length d"
  by (simp add: process_pixel_def length_store_rgba split: PixelClass.splits prod.splits)

lemma store_rgba_in_range:
  assumes "4 * k + 3 < length d"
  shows "store_rgba d (int (4 * k)) r g b a =
           d[4 * k := word_of_int r, 4 * k + 1 := word_of_int g,
             4 * k + 2 := word_of_int b, 4 * k + 3 := word_of_int a]"
proof -
  have n: "nat (int (4 * k) + 1) = 4 * k + 1" "nat (int (4 * k) + 2) = 4 * k + 2"
    "nat (int (4 * k) + 3) = 4 * k + 3" by simp_all
  have i: "int (4 * k) + 1 < int (length d)" "int (4 * k) + 2 < int (length d)"
    "int (4 * k) + 3 < int (length d)" "int (4 * k) < int (length d)"
    using assms by simp_all
  show ?thesis
    unfolding store_rgba_def buf_set_def using i n by (simp del: of_nat_mult of_nat_add)
qed

lemma pixel_class_in_range:
  assumes "4 * k + 3 < length d"
  shows "pixel_class f b d (int (4 * k)) =
           classify (uint (d ! (4 * k)), uint (d ! (4 * k + 1)), uint (d ! (4 * k + 2))) f b"
proof -
  have n: "nat (int (4 * k) + 1) = 4 * k + 1" "nat (int (4 * k) + 2) = 4 * k + 2" by simp_all
  have g: "buf_get d (int (4 * k)) = Some (uint (d ! (4 * k)))"
    "buf_get d (int (4 * k) + 1) = Some (uint (d ! (4 * k + 1)))"
    "buf_get d (int (4 * k) + 2) = Some (uint (d ! (4 * k + 2)))"
    using assms unfolding buf_get_def by (simp_all del: of_nat_mult of_nat_add add: n)
  show ?thesis
    by (cases f; cases b)
      (simp add: pixel_class_def g js_distance_def js_less_def classify_def
        euclidean_distance_def Let_def del: of_nat_mult of_nat_add)
qed

lemma process_pixel_in_range:
  assumes "4 * k + 3 < length d"
  shows "process_pixel options f b d (int (4 * k)) =
           (case recolored options f b
                   (classify (uint (d ! (4 * k)), uint (d ! (4 * k + 1)), uint (d ! (4 * k + 2))) f b)
            of (a0, a1, a2, a3) \<Rightarrow>
              d[4 * k := word_of_int a0, 4 * k + 1 := word_of_int a1,
                4 * k + 2 := word_of_int a2, 4 * k + 3 := word_of_int a3])"
  unfolding process_pixel_def pixel_class_in_range [OF assms] recolored_def
  by (cases f; cases b)
    (simp add: store_rgba_in_range [OF assms] split: PixelClass.splits del: of_nat_mult of_nat_add)

lemma pixel_bytes_update_same:
  "4 * n + 3 < length d \<Longrightarrow>
   pixel_bytes (d[4 * n := a0, 4 * n + 1 := a1, 4 * n + 2 := a2, 4 * n + 3 := a3]) n =
     (a0, a1, a2, a3)"
  by (simp add: pixel_bytes_def)

lemma pixel_bytes_update_earlier:
  "k < n \<Longrightarrow>
   pixel_bytes (d[4 * n := a0, 4 * n + 1 := a1, 4 * n + 2 := a2, 4 * n + 3 := a3]) k =
     pixel_bytes d k"
  by (simp add: pixel_bytes_def)

lemma nth_update_later:
  "4 * n + 4 \<le> j \<Longrightarrow>
   d[4 * n := a0, 4 * n + 1 := a1, 4 * n + 2 := a2, 4 * n + 3 := a3] ! j = d ! j"
  by simp

subsection \<open>The two nested loops visit every pixel once\<close>

lemma nested_fold_flat:
  "fold (\<lambda>y d. fold (\<lambda>x d. g (w * y + x) d) [0..<w] d) [0..<h] d = fold g [0..<w * h] d"
proof (induction h)
  case 0
  show ?case by simp
next
  case (Suc h)
  have row: "fold (\<lambda>x d. g (w * h + x) d) [0..<w] e = fold g [w * h..<w * h + w] e" for e
  proof -
    have "[w * h..<w * h + w] = map (\<lambda>x. w * h + x) [0..<w]"
      using map_add_upt [of "w * h" w] by (simp add: add.commute)
    then show ?thesis by (simp add: fold_map comp_def)
  qed
  have "w * Suc h = w * h + w" by simp
  then have split: "[0..<w * Suc h] = [0..<w * h] @ [w * h..<w * h + w]"
    using upt_add_eq_append [of 0 "w * h" w] by (simp only: le0)
  show ?case
    by (simp only: upt_Suc_append [OF le0] fold_append comp_def fold_simps Suc.IH row split)
qed

lemma process_pixel_step:
  assumes "4 * n + 3 < length d" "4 * n < 2 ^ 31"
  shows "length (process_pixel options f b d (js_shl (int n) 2)) = length d"
    and "pixel_bytes (process_pixel options f b d (js_shl (int n) 2)) n =
           recolored_bytes options f b d n"
    and "k < n \<Longrightarrow> pixel_bytes (process_pixel options f b d (js_shl (int n) 2)) k =
           pixel_bytes d k"
    and "4 * n + 4 \<le> j \<Longrightarrow> process_pixel options f b d (js_shl (int n) 2) ! j = d ! j"
proof -
  obtain a0 a1 a2 a3 where r: "recolored options f b
      (classify (uint (d ! (4 * n)), uint (d ! (4 * n + 1)), uint (d ! (4 * n + 2))) f b)
        = (a0, a1, a2, a3)"
    using prod_cases4 by blast
  have eq: "process_pixel options f b d (js_shl (int n) 2) =
      d[4 * n := word_of_int a0, 4 * n + 1 := word_of_int a1,
        4 * n + 2 := word_of_int a2, 4 * n + 3 := word_of_int a3]"
    by (simp only: js_shl_2 [OF assms(2)] process_pixel_in_range [OF assms(1)] r prod.case)
  show "length (process_pixel options f b d (js_shl (int n) 2)) = length d"
    by (rule length_process_pixel)
  show "pixel_bytes (process_pixel options f b d (js_shl (int n) 2)) n =
           recolored_bytes options f b d n"
    by (simp only: eq pixel_bytes_update_same [OF assms(1)] recolored_bytes_def r prod.case)
  show "k < n \<Longrightarrow> pixel_bytes (process_pixel options f b d (js_shl (int n) 2)) k =
           pixel_bytes d k"
    by (simp only: eq pixel_bytes_update_earlier)
  show "4 * n + 4 \<le> j \<Longrightarrow> process_pixel options f b d (js_shl (int n) 2) ! j = d ! j"
    by (simp only: eq nth_update_later)
qed

lemma recolored_bytes_cong:
  assumes "d' ! (4 * k) = d ! (4 * k)" "d' ! (4 * k + 1) = d ! (4 * k + 1)"
    "d' ! (4 * k + 2) = d ! (4 * k + 2)"
  shows "recolored_bytes options f b d' k = recolored_bytes options f b d k"
  by (simp only: recolored_bytes_def assms)

lemma flat_loop_inv:
  assumes "4 * n \<le> length d" "4 * n < 2 ^ 31"
  shows "length (fold (\<lambda>k d. process_pixel options f b d (js_shl (int k) 2)) [0..<n] d) = length d
       \<and> (\<forall>j. 4 * n \<le> j \<longrightarrow>
            fold (\<lambda>k d. process_pixel options f b d (js_shl (int k) 2)) [0..<n] d ! j = d ! j)
       \<and> (\<forall>k<n. pixel_bytes (fold (\<lambda>k d. process_pixel options f b d (js_shl (int k) 2)) [0..<n] d) k
             = recolored_bytes options f b d k)"
  using assms
proof (induction n)
  case 0
  show ?case by simp
next
  case (Suc n)
  let ?step = "\<lambda>k d. process_pixel options f b d (js_shl (int k) 2)"
  define e where "e = fold ?step [0..<n] d"
  have pre: "4 * n \<le> length d" "4 * n < 2 ^ 31" using Suc.prems by simp_all
  from Suc.IH [OF pre] have
    len: "length e = length d" and
    later: "\<And>j. 4 * n \<le> j \<Longrightarrow> e ! j = d ! j" and
    earlier: "\<And>k. k < n \<Longrightarrow> pixel_bytes e k = recolored_bytes options f b d k"
    unfolding e_def by blast+
  have last_step: "fold ?step [0..<Suc n] d = ?step n e"
    by (simp add: e_def)
  have inr: "4 * n + 3 < length e" using Suc.prems len by simp
  note st = process_pixel_step [OF inr pre(2), where options = options and f = f and b = b]
  have same: "recolored_bytes options f b e n = recolored_bytes options f b d n"
    by (rule recolored_bytes_cong) (simp_all add: later)
  have 1: "length (?step n e) = length d"
    using st(1) len by simp
  have 2: "?step n e ! j = d ! j" if "4 * Suc n \<le> j" for j
  proof -
    from that have "4 * n + 4 \<le> j" by simp
    then have "?step n e ! j = e ! j" by (rule st(4))
    also have "\<dots> = d ! j" using that by (intro later) simp
    finally show ?thesis .
  qed
  have 3: "pixel_bytes (?step n e) k = recolored_bytes options f b d k" if "k < Suc n" for k
  proof (cases "k = n")
    case True
    then show ?thesis using st(2) same by simp
  next
    case False
    with that have kn: "k < n" by simp
    then have "pixel_bytes (?step n e) k = pixel_bytes e k" by (rule st(3))
    then show ?thesis using earlier [OF kn] by simp
  qed
  show ?case
    unfolding last_step using 1 2 3 by blast
qed

lemma pixel_index_bound: "x < w \<Longrightarrow> y < h \<Longrightarrow> w * y + x < w * (h::nat)"
proof -
  assume x: "x < w" and y: "y < h"
  have "w * y + x < w * y + w" using x by simp
  also have "\<dots> = w * Suc y" by simp
  also have "\<dots> \<le> w * h" using y by (intro mult_le_mono2) simp
  finally show ?thesis .
qed

lemma quad_in_range: "k < n \<Longrightarrow> 4 * k + 3 < 4 * (n::nat)"
  by simp

lemma quad_small: "k < n \<Longrightarrow> 4 * n < m \<Longrightarrow> 4 * k < (m::nat)"
  by simp

lemma pixel_loop_pixel:
  assumes "length d = 4 * (w * h)" "4 * (w * h) < 2 ^ 31" "x < w" "y < h"
  shows "pixel_bytes (pixel_loop options f b w h d) (w * y + x) =
           recolored_bytes options f b d (w * y + x)"
proof -
  have flat: "pixel_loop options f b w h d =
      fold (\<lambda>k d. process_pixel options f b d (js_shl (int k) 2)) [0..<w * h] d"
    unfolding pixel_loop_def
    by (rule nested_fold_flat [where g = "\<lambda>k d. process_pixel options f b d (js_shl (int k) 2)"])
  have le: "4 * (w * h) \<le> length d" using assms(1) by simp
  from flat_loop_inv [OF le assms(2), of options f b] pixel_index_bound [OF assms(3,4)]
  show ?thesis unfolding flat by blast
qed

lemma uint_byte: "0 \<le> a \<Longrightarrow> a \<le> 255 \<Longrightarrow> uint (word_of_int a :: byte) = a"
  by (simp add: uint_word_of_int)

lemma foregroundRgb_range:
  "foregroundRgb_of options = (f0, f1, f2) \<Longrightarrow>
     0 \<le> f0 \<and> f0 \<le> 255 \<and> 0 \<le> f1 \<and> f1 \<le> 255 \<and> 0 \<le> f2 \<and> f2 \<le> 255"
  unfolding foregroundRgb_of_def by (rule hexToRgb_range)

lemma backgroundRgb_range:
  "backgroundRgb_of bg = (b0, b1, b2) \<Longrightarrow>
     0 \<le> b0 \<and> b0 \<le> 255 \<and> 0 \<le> b1 \<and> b1 \<le> 255 \<and> 0 \<le> b2 \<and> b2 \<le> 255"
  unfolding backgroundRgb_of_def by (rule hexToRgb_range)

lemma recolored_range:
  assumes "recolored options (foregroundRgb_of options) (backgroundRgb_of bg) c = (a0, a1, a2, a3)"
  shows "0 \<le> a0 \<and> a0 \<le> 255 \<and> 0 \<le> a1 \<and> a1 \<le> 255 \<and> 0 \<le> a2 \<and> a2 \<le> 255 \<and> 0 \<le> a3 \<and> a3 \<le> 255"
proof -
  obtain f0 f1 f2 where f: "foregroundRgb_of options = (f0, f1, f2)"
    using prod_cases3 by blast
  obtain b0 b1 b2 where b: "backgroundRgb_of bg = (b0, b1, b2)"
    using prod_cases3 by blast
  show ?thesis
    using assms foregroundRgb_range [OF f] backgroundRgb_range [OF b]
    by (cases c) (auto simp: recolored_def f b split: if_splits)
qed

lemma recolor_pixel:
  assumes "raster_ok ras" "x < width ras" "y < height ras"
  shows "pixel_rgba (recolor options bg ras) x y =
           recolored options (foregroundRgb_of options) (backgroundRgb_of bg)
             (classify (pixel_rgb ras x y) (foregroundRgb_of options) (backgroundRgb_of bg))"
proof -
  let ?f = "foregroundRgb_of options" and ?b = "backgroundRgb_of bg"
  let ?k = "width ras * y + x"
  let ?c = "classify (pixel_rgb ras x y) ?f ?b"
  obtain a0 a1 a2 a3 where r: "recolored options ?f ?b ?c = (a0, a1, a2, a3)"
    using prod_cases4 by blast
  have ok: "length (data ras) = 4 * (width ras * height ras)"
    "4 * (width ras * height ras) < 2 ^ 31"
    using assms(1) by (simp_all add: raster_ok_def)
  have rgb: "pixel_rgb ras x y =
      (uint (data ras ! (4 * ?k)), uint (data ras ! (4 * ?k + 1)), uint (data ras ! (4 * ?k + 2)))"
    by (simp add: pixel_rgb_def pixel_bytes_def)
  have "pixel_bytes (pixel_loop options ?f ?b (width ras) (height ras) (data ras)) ?k =
      recolored_bytes options ?f ?b (data ras) ?k"
    by (rule pixel_loop_pixel [OF ok assms(2,3)])
  also have "\<dots> = (word_of_int a0, word_of_int a1, word_of_int a2, word_of_int a3)"
    unfolding recolored_bytes_def rgb [symmetric] r by simp
  finally have "pixel_rgba (recolor options bg ras) x y =
      (uint (word_of_int a0 :: byte), uint (word_of_int a1 :: byte),
       uint (word_of_int a2 :: byte), uint (word_of_int a3 :: byte))"
    by (simp add: pixel_rgba_def recolor_def Let_def)
  also have "\<dots> = (a0, a1, a2, a3)"
    using recolored_range [OF r] by (simp only: uint_byte)
  finally show ?thesis by (simp only: r)
qed

lemma pixel_class_pixel:
  assumes "raster_ok ras" "x < width ras" "y < height ras"
  shows "pixel_class f b (data ras) (js_shl (int (width ras * y + x)) 2) =
           classify (pixel_rgb ras x y) f b"
proof -
  let ?k = "width ras * y + x"
  have k: "?k < width ras * height ras" by (rule pixel_index_bound [OF assms(2,3)])
  have ok: "length (data ras) = 4 * (width ras * height ras)"
    "4 * (width ras * height ras) < 2 ^ 31"
    using assms(1) by (simp_all add: raster_ok_def)
  have inr: "4 * ?k + 3 < length (data ras)" unfolding ok(1) by (rule quad_in_range [OF k])
  have small: "4 * ?k < 2 ^ 31" by (rule quad_small [OF k ok(2)])
  show ?thesis
    by (simp only: js_shl_2 [OF small] pixel_class_in_range [OF inr] pixel_rgb_def
        pixel_bytes_def prod.case)
qed

subsection \<open>Classification and recolouring of every pixel\<close>

lemma hexToRgb_black: "hexToRgb ''#000000'' = (0, 0, 0)"
proof -
  have "hexToRgb ''#000000'' = (parseInt16 ''00'', parseInt16 ''00'', parseInt16 ''00'')"
    by (rule hexToRgb_six) (simp_all add: is_hex_digit_def)
  then show ?thesis by (simp add: parseInt16_pair hex_digit_val_def)
qed

lemma hexToRgb_white: "hexToRgb ''#FFFFFF'' = (255, 255, 255)"
proof -
  have "hexToRgb ''#FFFFFF'' = (parseInt16 ''FF'', parseInt16 ''FF'', parseInt16 ''FF'')"
    by (rule hexToRgb_six) (simp_all add: is_hex_digit_def)
  then show ?thesis by (simp add: parseInt16_pair hex_digit_val_def)
qed



lemma pixel_class_alpha:
  assumes "raster_ok ras" "x < width ras" "y < height ras"
  shows "pixel_class f b ((data ras)[4 * (width ras * y + x) + 3 := a])
           (js_shl (int (width ras * y + x)) 2) =
         pixel_class f b (data ras) (js_shl (int (width ras * y + x)) 2)"
proof -
  let ?k = "width ras * y + x"
  have k: "?k < width ras * height ras" by (rule pixel_index_bound [OF assms(2,3)])
  have ok: "length (data ras) = 4 * (width ras * height ras)"
    "4 * (width ras * height ras) < 2 ^ 31"
    using assms(1) by (simp_all add: raster_ok_def)
  have inr: "4 * ?k + 3 < length (data ras)" unfolding ok(1) by (rule quad_in_range [OF k])
  then have inr': "4 * ?k + 3 < length ((data ras)[4 * ?k + 3 := a])" by simp
  have small: "4 * ?k < 2 ^ 31" by (rule quad_small [OF k ok(2)])
  show ?thesis
    by (simp only: js_shl_2 [OF small] pixel_class_in_range [OF inr] pixel_class_in_range [OF inr'])
      simp
qed

text \<open>
  \<^bold>\<open>C1\<close>. For every pixel \<open>(x, y)\<close> of a well-formed raster, the class the loop computes
  from the buffer is FOREGROUND iff the Euclidean RGB distance from the pixel to the
  resolved foreground colour is strictly smaller than its distance to the resolved
  background colour; it is BACKGROUND when the two distances are equal; it does not depend
  on the alpha byte of the pixel; and the pixel the loop writes is the one the Recolorer
  rules give for that class.
\<close>

theorem C1_pixel_classifier:
  fixes options :: options and bg :: string and ras :: raster and x y :: nat and a :: byte
  defines "f \<equiv> foregroundRgb_of options"
    and "b \<equiv> backgroundRgb_of bg"
    and "p \<equiv> pixel_rgb ras x y"
    and "idx \<equiv> js_shl (int (width ras * y + x)) 2"
  assumes "raster_ok ras" "x < width ras" "y < height ras"
  shows "(pixel_class f b (data ras) idx = FOREGROUND) =
           (euclidean_distance p f < euclidean_distance p b)
       \<and> (euclidean_distance p b \<le> euclidean_distance p f \<longrightarrow>
            pixel_class f b (data ras) idx = BACKGROUND)
       \<and> pixel_class f b ((data ras)[4 * (width ras * y + x) + 3 := a]) idx =
            pixel_class f b (data ras) idx
       \<and> pixel_rgba (recolor options bg ras) x y =
            recolored options f b (pixel_class f b (data ras) idx)"
proof -
  have c: "pixel_class f b (data ras) idx = classify p f b"
    unfolding idx_def p_def by (rule pixel_class_pixel [OF assms(5-7)])
  have al: "pixel_class f b ((data ras)[4 * (width ras * y + x) + 3 := a]) idx =
      pixel_class f b (data ras) idx"
    unfolding idx_def by (rule pixel_class_alpha [OF assms(5-7)])
  have out: "pixel_rgba (recolor options bg ras) x y =
      recolored options f b (pixel_class f b (data ras) idx)"
    unfolding c unfolding f_def b_def p_def by (rule recolor_pixel [OF assms(5-7)])
  show ?thesis
    using al out by (simp add: c classify_def)
qed

lemma hexToRgb_0000fe: "hexToRgb ''#0000fe'' = (0, 0, 254)"
proof -
  have "hexToRgb ''#0000fe'' = (parseInt16 ''00'', parseInt16 ''00'', parseInt16 ''fe'')"
    by (rule hexToRgb_six) (simp_all add: is_hex_digit_def)
  then show ?thesis by (simp add: parseInt16_pair hex_digit_val_def)
qed

lemma foregroundRgb_default: "foregroundColor options = Some ''#000000'' \<Longrightarrow>
  foregroundRgb_of options = (0, 0, 0)"
  by (simp add: foregroundRgb_of_def or_str_def hexToRgb_black)

lemma raster_ok_two_tone: "raster_ok two_tone_raster"
  by (simp add: raster_ok_def two_tone_raster_def)

lemma raster_ok_tie: "raster_ok tie_raster"
  by (simp add: raster_ok_def tie_raster_def)

lemma pixel_rgb_two_tone:
  "pixel_rgb two_tone_raster 0 0 = (0, 0, 0)" "pixel_rgb two_tone_raster 1 0 = (255, 255, 255)"
  by (simp_all add: pixel_rgb_def pixel_bytes_def two_tone_raster_def)

lemma pixel_rgb_tie:
  "pixel_rgb tie_raster 0 0 = (0, 0, 127)" "pixel_rgb tie_raster 1 0 = (0, 0, 10)"
  by (simp_all add: pixel_rgb_def pixel_bytes_def tie_raster_def)

lemma classify_examples:
  "classify (0, 0, 0) (0, 0, 0) (255, 255, 255) = FOREGROUND"
  "classify (255, 255, 255) (0, 0, 0) (255, 255, 255) = BACKGROUND"
  "classify (0, 0, 127) (0, 0, 0) (0, 0, 254) = BACKGROUND"
  "classify (0, 0, 10) (0, 0, 0) (0, 0, 254) = FOREGROUND"
  by (simp_all add: classify_def euclidean_distance_def)

lemma euclidean_tie: "euclidean_distance (0, 0, 127) (0, 0, 0) = euclidean_distance (0, 0, 127) (0, 0, 254)"
  by (simp add: euclidean_distance_def)

theorem C1_pixel_classifier_witness:
  "raster_ok tie_raster
   \<and> euclidean_distance (pixel_rgb tie_raster 0 0) (foregroundRgb_of cli_default_options)
       = euclidean_distance (pixel_rgb tie_raster 0 0) (backgroundRgb_of ''#0000fe'')
   \<and> pixel_class (foregroundRgb_of cli_default_options) (backgroundRgb_of ''#0000fe'')
        (data tie_raster) (js_shl (int (width tie_raster * 0 + 0)) 2) = BACKGROUND
   \<and> pixel_class (foregroundRgb_of cli_default_options) (backgroundRgb_of ''#0000fe'')
        (data tie_raster) (js_shl (int (width tie_raster * 0 + 1)) 2) = FOREGROUND"
proof -
  have f: "foregroundRgb_of cli_default_options = (0, 0, 0)"
    by (rule foregroundRgb_default) (simp add: cli_default_options_def)
  have b: "backgroundRgb_of ''#0000fe'' = (0, 0, 254)"
    by (simp add: backgroundRgb_of_def hexToRgb_0000fe)
  have w: "0 < width tie_raster" "1 < width tie_raster" "0 < height tie_raster"
    by (simp_all add: tie_raster_def)
  have le: "euclidean_distance (pixel_rgb tie_raster 0 0) (backgroundRgb_of ''#0000fe'')
      \<le> euclidean_distance (pixel_rgb tie_raster 0 0) (foregroundRgb_of cli_default_options)"
    by (simp only: f b pixel_rgb_tie euclidean_tie order_refl)
  have lt: "euclidean_distance (pixel_rgb tie_raster 1 0) (foregroundRgb_of cli_default_options)
      < euclidean_distance (pixel_rgb tie_raster 1 0) (backgroundRgb_of ''#0000fe'')"
    by (simp only: f b pixel_rgb_tie) (simp add: euclidean_distance_def)
  have 0: "pixel_class (foregroundRgb_of cli_default_options) (backgroundRgb_of ''#0000fe'')
        (data tie_raster) (js_shl (int (width tie_raster * 0 + 0)) 2) = BACKGROUND"
    by (rule C1_pixel_classifier [OF raster_ok_tie w(1) w(3), THEN conjunct2, THEN conjunct1,
          THEN mp, OF le])
  have 1: "pixel_class (foregroundRgb_of cli_default_options) (backgroundRgb_of ''#0000fe'')
        (data tie_raster) (js_shl (int (width tie_raster * 0 + 1)) 2) = FOREGROUND"
    by (rule C1_pixel_classifier [OF raster_ok_tie w(2) w(3), THEN conjunct1, THEN iffD2, OF lt])
  show ?thesis
    using raster_ok_tie 0 1 by (simp only: f b pixel_rgb_tie euclidean_tie simp_thms)
qed

lemma pixel_rgb_of_rgba:
  "pixel_rgba ras x y = (r, g, b, a) \<Longrightarrow> pixel_rgb ras x y = (r, g, b)"
  by (auto simp: pixel_rgba_def pixel_rgb_def split: prod.splits)

lemma recolor_pixel_class:
  assumes "raster_ok ras" "x < width ras" "y < height ras"
  shows "pixel_rgba (recolor options bg ras) x y =
           recolored options (foregroundRgb_of options) (backgroundRgb_of bg)
             (pixel_class (foregroundRgb_of options) (backgroundRgb_of bg) (data ras)
                (js_shl (int (width ras * y + x)) 2))"
  by (simp only: pixel_class_pixel [OF assms] recolor_pixel [OF assms])



text \<open>
  \<^bold>\<open>C7\<close>. When transparent mode is not requested, after the recolouring pass every
  pixel of a well-formed raster has alpha 255, and every pixel classified BACKGROUND has
  the background colour the pass was given; called from \<^verbatim>\<open>generateQR\<close>, that is the
  requested background colour (white by default), as \<^verbatim>\<open>hexToRgb\<close> reads it.
\<close>

theorem C7_opaque_mode:
  fixes options :: options and bg :: string and ras :: raster and x y :: nat
  defines "c \<equiv> pixel_class (foregroundRgb_of options) (backgroundRgb_of bg) (data ras)
                 (js_shl (int (width ras * y + x)) 2)"
  assumes "\<not> transparent options" "raster_ok ras" "x < width ras" "y < height ras"
  shows "snd (snd (snd (pixel_rgba (recolor options bg ras) x y))) = 255
       \<and> (c = BACKGROUND \<longrightarrow> pixel_rgb (recolor options bg ras) x y = backgroundRgb_of bg)
       \<and> (bg = generateQR_backgroundColorToUse options \<longrightarrow>
            backgroundRgb_of bg = hexToRgb (or_str (backgroundColor options) ''#FFFFFF''))"
proof -
  let ?out = "pixel_rgba (recolor options bg ras) x y"
  have out: "?out = recolored options (foregroundRgb_of options) (backgroundRgb_of bg) c"
    unfolding c_def by (rule recolor_pixel_class [OF assms(3-5)])
  obtain f0 f1 f2 where f: "foregroundRgb_of options = (f0, f1, f2)"
    using prod_cases3 by blast
  obtain b0 b1 b2 where b: "backgroundRgb_of bg = (b0, b1, b2)"
    using prod_cases3 by blast
  have alpha: "snd (snd (snd ?out)) = 255"
    unfolding out using assms(2) by (cases c) (simp_all add: recolored_def f b)
  have rgb: "pixel_rgb (recolor options bg ras) x y = backgroundRgb_of bg" if "c = BACKGROUND"
  proof -
    have "?out = (b0, b1, b2, 255)"
      unfolding out using assms(2) that by (simp add: recolored_def b)
    then show ?thesis unfolding b by (rule pixel_rgb_of_rgba)
  qed
  have req: "backgroundRgb_of (generateQR_backgroundColorToUse options) =
      hexToRgb (or_str (backgroundColor options) ''#FFFFFF'')"
    using assms(2) by (simp add: backgroundRgb_of_def generateQR_backgroundColorToUse_def)
  show ?thesis using alpha rgb req by blast
qed

theorem C7_opaque_mode_witness:
  "\<not> transparent (cli_default_options\<lparr>moduleShape := Some ''circle''\<rparr>)
   \<and> raster_ok two_tone_raster
   \<and> snd (snd (snd (pixel_rgba (recolor (cli_default_options\<lparr>moduleShape := Some ''circle''\<rparr>)
        (generateQR_backgroundColorToUse (cli_default_options\<lparr>moduleShape := Some ''circle''\<rparr>))
        two_tone_raster) 0 0))) = 255
   \<and> pixel_rgb (recolor (cli_default_options\<lparr>moduleShape := Some ''circle''\<rparr>)
        (generateQR_backgroundColorToUse (cli_default_options\<lparr>moduleShape := Some ''circle''\<rparr>))
        two_tone_raster) 1 0 = (255, 255, 255)"
proof -
  let ?o = "cli_default_options\<lparr>moduleShape := Some ''circle''\<rparr>"
  let ?bg = "generateQR_backgroundColorToUse ?o"
  have t: "\<not> transparent ?o" by (simp add: cli_default_options_def)
  have f: "foregroundRgb_of ?o = (0, 0, 0)"
    by (rule foregroundRgb_default) (simp add: cli_default_options_def)
  have bg: "?bg = ''#FFFFFF''"
    by (simp add: generateQR_backgroundColorToUse_def cli_default_options_def or_str_def)
  have b: "backgroundRgb_of ?bg = (255, 255, 255)"
    by (simp only: bg backgroundRgb_of_def hexToRgb_white)
  have w: "0 < width two_tone_raster" "1 < width two_tone_raster" "0 < height two_tone_raster"
    by (simp_all add: two_tone_raster_def)
  have c1: "pixel_class (foregroundRgb_of ?o) (backgroundRgb_of ?bg) (data two_tone_raster)
      (js_shl (int (width two_tone_raster * 0 + 1)) 2) = BACKGROUND"
    by (simp only: pixel_class_pixel [OF raster_ok_two_tone w(2) w(3)] f b pixel_rgb_two_tone
        classify_examples)
  have 0: "snd (snd (snd (pixel_rgba (recolor ?o ?bg two_tone_raster) 0 0))) = 255"
    by (rule C7_opaque_mode [OF t raster_ok_two_tone w(1) w(3), THEN conjunct1])
  have 1: "pixel_rgb (recolor ?o ?bg two_tone_raster) 1 0 = backgroundRgb_of ?bg"
    by (rule C7_opaque_mode [OF t raster_ok_two_tone w(2) w(3), THEN conjunct2, THEN conjunct1,
          THEN mp, OF c1])
  from 1 have 1: "pixel_rgb (recolor ?o ?bg two_tone_raster) 1 0 = (255, 255, 255)"
    by (simp only: b)
  show ?thesis using t raster_ok_two_tone 0 1 by (simp only: simp_thms)
qed

text \<open>
  \<^bold>\<open>C6\<close>. When the resolved foreground colour equals the resolved background colour,
  every pixel of a well-formed raster is classified BACKGROUND, and the output raster is
  uniform: every pixel is fully transparent \<open>(0, 0, 0, 0)\<close> when transparent mode is
  requested, and the background colour with alpha 255 otherwise.
\<close>

theorem C6_equal_colours:
  assumes "foregroundRgb_of options = backgroundRgb_of bg"
    and "raster_ok ras" "x < width ras" "y < height ras"
  shows "pixel_class (foregroundRgb_of options) (backgroundRgb_of bg) (data ras)
           (js_shl (int (width ras * y + x)) 2) = BACKGROUND
       \<and> pixel_rgba (recolor options bg ras) x y =
           (if transparent options then (0, 0, 0, 0)
            else (case backgroundRgb_of bg of (b0, b1, b2) \<Rightarrow> (b0, b1, b2, 255)))"
proof -
  have c: "pixel_class (foregroundRgb_of options) (backgroundRgb_of bg) (data ras)
           (js_shl (int (width ras * y + x)) 2) = BACKGROUND"
    unfolding pixel_class_pixel [OF assms(2-4)] assms(1) by (simp add: classify_def)
  have "pixel_rgba (recolor options bg ras) x y =
      recolored options (foregroundRgb_of options) (backgroundRgb_of bg) BACKGROUND"
    using recolor_pixel_class [OF assms(2-4), of options bg] by (simp only: c)
  then show ?thesis using c by (simp add: recolored_def)
qed

theorem C6_equal_colours_witness:
  "foregroundRgb_of (cli_default_options\<lparr>backgroundColor := Some ''#000000''\<rparr>) =
     backgroundRgb_of (generateQR_backgroundColorToUse
        (cli_default_options\<lparr>backgroundColor := Some ''#000000''\<rparr>))
   \<and> raster_ok two_tone_raster
   \<and> pixel_rgba (recolor (cli_default_options\<lparr>backgroundColor := Some ''#000000''\<rparr>)
        (generateQR_backgroundColorToUse (cli_default_options\<lparr>backgroundColor := Some ''#000000''\<rparr>))
        two_tone_raster) 0 0 = (0, 0, 0, 255)
   \<and> pixel_rgba (recolor (cli_default_options\<lparr>backgroundColor := Some ''#000000''\<rparr>)
        (generateQR_backgroundColorToUse (cli_default_options\<lparr>backgroundColor := Some ''#000000''\<rparr>))
        two_tone_raster) 1 0 = (0, 0, 0, 255)
   \<and> pixel_rgba (recolor (cli_default_options\<lparr>transparent := True\<rparr>) ''#000000''
        two_tone_raster) 1 0 = (0, 0, 0, 0)"
proof -
  let ?o = "cli_default_options\<lparr>backgroundColor := Some ''#000000''\<rparr>"
  let ?bg = "generateQR_backgroundColorToUse ?o"
  let ?t = "cli_default_options\<lparr>transparent := True\<rparr>"
  have nt: "\<not> transparent ?o" by (simp add: cli_default_options_def)
  have tt: "transparent ?t" by simp
  have f: "foregroundRgb_of ?o = (0, 0, 0)"
    by (rule foregroundRgb_default) (simp add: cli_default_options_def)
  have ft: "foregroundRgb_of ?t = (0, 0, 0)"
    by (rule foregroundRgb_default) (simp add: cli_default_options_def)
  have bg: "?bg = ''#000000''"
    by (simp add: generateQR_backgroundColorToUse_def cli_default_options_def or_str_def)
  have b: "backgroundRgb_of ?bg = (0, 0, 0)"
    by (simp only: bg backgroundRgb_of_def hexToRgb_black)
  have bt: "backgroundRgb_of ''#000000'' = (0, 0, 0)"
    by (simp only: backgroundRgb_of_def hexToRgb_black)
  have eq: "foregroundRgb_of ?o = backgroundRgb_of ?bg" by (simp only: f b)
  have eqt: "foregroundRgb_of ?t = backgroundRgb_of ''#000000''" by (simp only: ft bt)
  have w: "0 < width two_tone_raster" "1 < width two_tone_raster" "0 < height two_tone_raster"
    by (simp_all add: two_tone_raster_def)
  have 0: "pixel_rgba (recolor ?o ?bg two_tone_raster) 0 0 = (0, 0, 0, 255)"
    using C6_equal_colours [OF eq raster_ok_two_tone w(1) w(3), THEN conjunct2]
    by (simp only: nt if_False b prod.case)
  have 1: "pixel_rgba (recolor ?o ?bg two_tone_raster) 1 0 = (0, 0, 0, 255)"
    using C6_equal_colours [OF eq raster_ok_two_tone w(2) w(3), THEN conjunct2]
    by (simp only: nt if_False b prod.case)
  have 2: "pixel_rgba (recolor ?t ''#000000'' two_tone_raster) 1 0 = (0, 0, 0, 0)"
    using C6_equal_colours [OF eqt raster_ok_two_tone w(2) w(3), THEN conjunct2]
    by (simp only: tt if_True)
  show ?thesis using eq raster_ok_two_tone 0 1 2 by (simp only: simp_thms)
qed

subsection \<open>Malformed colour strings\<close>








end
